theory Spec2Isabelle
  imports Main "HOL-Library.Multiset"
begin

section \<open>Data model\<close>

text \<open>
  The application keeps its records as plain JavaScript objects. A property value is one of
  the scalars below; the handlers only copy such values, they never compute with them.
  An object is a finite map from property names to values.
\<close>

datatype jsval = JUndefined | JNull | JBool bool | JNum int | JStr string

type_synonym obj = "string \<rightharpoonup> jsval"

text \<open>
  \<^verbatim>\<open>String(x)\<close>, used to normalise every identifier. Numeric identifiers are
  integers (int8 primary keys), printed in decimal. This is what \<^verbatim>\<open>String\<close> gives for
  the integers a JavaScript number holds exactly (below 2^53 in absolute value); larger
  numbers and fractions are outside the model. No property below depends on how a number
  is printed, only on the result being a string.
\<close>

fun string_of_nat :: "nat \<Rightarrow> string" where
  "string_of_nat n =
     (if n < 10 then [char_of (48 + n)]
      else string_of_nat (n div 10) @ [char_of (48 + n mod 10)])"

declare string_of_nat.simps [simp del]

fun String_js :: "jsval \<Rightarrow> string" where
  "String_js JUndefined = ''undefined''"
| "String_js JNull = ''null''"
| "String_js (JBool b) = (if b then ''true'' else ''false'')"
| "String_js (JNum n) =
     (if n < 0 then ''-'' @ string_of_nat (nat (- n)) else string_of_nat (nat n))"
| "String_js (JStr s) = s"

text \<open>
  A customer in the store: its identifier (always a string there), the nested
  \<^verbatim>\<open>data\<close> object keyed by column identifiers, and the remaining top-level
  properties (name, status, location, created_at, ...).
\<close>

record customer =
  id_cust :: string
  data :: obj
  rest_cust :: obj

text \<open>A customer row as the gateway returns it: the identifier may be a number.\<close>

record raw_customer =
  raw_id_cust :: jsval
  raw_data :: obj
  raw_rest_cust :: obj

record task =
  id_task :: string
  customerId :: string
  rest_task :: obj

record raw_task =
  raw_id_task :: jsval
  raw_customerId :: jsval
  raw_rest_task :: obj

text \<open>\<^verbatim>\<open>Partial<Customer>\<close> and \<^verbatim>\<open>Partial<Task>\<close>: every property is optional.\<close>

record partial_customer =
  upd_id_cust :: "string option"
  upd_data :: "obj option"
  upd_rest_cust :: obj


datatype column_type = Text | Select | Currency | Date | Phone | Person

record column =
  id_col :: string
  title :: string
  type_col :: column_type
  options :: "string list option"
  order_col :: int
  removable :: bool

text \<open>
  \<^verbatim>\<open>normalize\<close> and \<^verbatim>\<open>normalizeTask\<close> (App.tsx, lines 170-171), also written
  inline in \<^verbatim>\<open>fetchAllData\<close>: \<^verbatim>\<open>{ ...obj, id: String(obj.id) }\<close>.
\<close>

definition normalize :: "raw_customer \<Rightarrow> customer" where
  "normalize obj =
     \<lparr>id_cust = String_js (raw_id_cust obj), data = raw_data obj, rest_cust = raw_rest_cust obj\<rparr>"

definition normalizeTask :: "raw_task \<Rightarrow> task" where
  "normalizeTask obj =
     \<lparr>id_task = String_js (raw_id_task obj),
      customerId = String_js (raw_customerId obj),
      rest_task = raw_rest_task obj\<rparr>"

section \<open>Effects\<close>

text \<open>
  The handlers act on the React state and the two pending-id refs, call the remote
  gateway, raise alerts and schedule timers. The model threads a state record through
  them; every effect the outside can observe is appended to \<open>trace\<close>, in program order,
  and to \<open>history\<close> together with the three collections as they stand when the effect
  happens: for the call of a state setter, the collections as the setter leaves them; for
  a gateway call, the collections at the moment the request is issued.
\<close>

datatype table = Customers | Tasks | Columns

datatype event =
    SetCustomers
  | SetTasks
  | SetColumns
  | GwInsert table
  | GwSelect table string
  | GwUpdate table string
  | GwDelete table string string
  | GwUpsert table
  | Alert string
  | ConsoleError string
  | SetTimeout nat

text \<open>
  A callback scheduled by \<^verbatim>\<open>setTimeout\<close> in one of the two create handlers: the time
  it is due, the pending set it works on, and the two identifiers its closure holds.
\<close>

datatype pending_ref = PendingAddsRef | PendingTaskAddsRef

record timer =
  due :: nat
  ref :: pending_ref
  timer_newId :: string
  timer_returnedId :: string

type_synonym store = "customer list \<times> task list \<times> column list"

record state =
  customers :: "customer list"
  tasks :: "task list"
  columns :: "column list"
  pendingAdds :: "string set"
  pendingTaskAdds :: "string set"
  timers :: "timer list"
  clock :: nat
  trace :: "event list"
  history :: "(event \<times> store) list"

definition store_of :: "state \<Rightarrow> store" where
  "store_of s = (customers s, tasks s, columns s)"

definition emit :: "event \<Rightarrow> state \<Rightarrow> state" where
  "emit e s = s\<lparr>trace := trace s @ [e], history := history s @ [(e, store_of s)]\<rparr>"

section \<open>Refresh merge (fetchAllData)\<close>

text \<open>
  \<^verbatim>\<open>fetched.forEach(f => { if (pending.has(f.id)) pending.delete(f.id) })\<close>
\<close>

definition clearFetched :: "string list \<Rightarrow> string set \<Rightarrow> string set" where
  "clearFetched ids P = fold (\<lambda>i Q. if i \<in> Q then Q - {i} else Q) ids P"

text \<open>The updater passed to \<^verbatim>\<open>setCustomers\<close> (App.tsx, lines 78-94).\<close>

definition mergeCustomers ::
  "raw_customer list option \<Rightarrow> string set \<Rightarrow> customer list \<Rightarrow> string set \<times> customer list" where
  "mergeCustomers customersData P prev =
     (let fetched = map normalize (case customersData of None \<Rightarrow> [] | Some rows \<Rightarrow> rows);
          P' = clearFetched (map id_cust fetched) P;
          pendingItems =
            filter (\<lambda>c. id_cust c \<in> P' \<and> \<not> list_ex (\<lambda>f. id_cust f = id_cust c) fetched) prev
      in (P', fetched @ pendingItems))"

text \<open>The updater passed to \<^verbatim>\<open>setTasks\<close> (App.tsx, lines 98-112).\<close>

definition mergeTasks ::
  "raw_task list option \<Rightarrow> string set \<Rightarrow> task list \<Rightarrow> string set \<times> task list" where
  "mergeTasks tasksData P prev =
     (let fetched = map normalizeTask (case tasksData of None \<Rightarrow> [] | Some rows \<Rightarrow> rows);
          P' = clearFetched (map id_task fetched) P;
          pendingItems =
            filter (\<lambda>t. id_task t \<in> P' \<and> \<not> list_ex (\<lambda>f. id_task f = id_task t) fetched) prev
      in (P', fetched @ pendingItems))"

text \<open>
  What the seven parallel reads returned; only the three collections modelled here are
  kept. A read that failed has \<^verbatim>\<open>data\<close> null.
\<close>

record fetch_result =
  customersData :: "raw_customer list option"
  columnsData :: "column list option"
  tasksData :: "raw_task list option"

definition fetchAllData :: "fetch_result \<Rightarrow> state \<Rightarrow> state" where
  "fetchAllData r s =
     (let s0 = fold emit [GwSelect Customers ''*'', GwSelect Columns ''*'', GwSelect Tasks ''*''] s;
          (P1, cs) = mergeCustomers (customersData r) (pendingAdds s0) (customers s0);
          s1 = emit SetCustomers (s0\<lparr>customers := cs, pendingAdds := P1\<rparr>);
          s2 = emit SetColumns
                 (s1\<lparr>columns := (case columnsData r of None \<Rightarrow> [] | Some cols \<Rightarrow> cols)\<rparr>);
          (P2, ts) = mergeTasks (tasksData r) (pendingTaskAdds s2) (tasks s2)
      in emit SetTasks (s2\<lparr>tasks := ts, pendingTaskAdds := P2\<rparr>))"

text \<open>The normalised snapshot of a refresh, and the identifiers occurring in it.\<close>

definition fetchedCustomers :: "fetch_result \<Rightarrow> customer list" where
  "fetchedCustomers r =
     map normalize (case customersData r of None \<Rightarrow> [] | Some rows \<Rightarrow> rows)"

definition fetchedTasks :: "fetch_result \<Rightarrow> task list" where
  "fetchedTasks r =
     map normalizeTask (case tasksData r of None \<Rightarrow> [] | Some rows \<Rightarrow> rows)"

definition fetchedCustomerIds :: "fetch_result \<Rightarrow> string set" where
  "fetchedCustomerIds r = set (map id_cust (fetchedCustomers r))"

definition fetchedTaskIds :: "fetch_result \<Rightarrow> string set" where
  "fetchedTaskIds r = set (map id_task (fetchedTasks r))"

section \<open>Inbound change-feed handlers\<close>

text \<open>
  A \<^verbatim>\<open>postgres_changes\<close> payload: the event type with \<^verbatim>\<open>payload.new\<close>, or
  with \<^verbatim>\<open>payload.old.id\<close> for a delete.
\<close>

datatype 'r payload = INSERT 'r | UPDATE 'r | DELETE jsval

text \<open>\<^verbatim>\<open>handleCustomerChange\<close> (App.tsx, lines 173-184).\<close>

fun handleCustomerChange :: "raw_customer payload \<Rightarrow> state \<Rightarrow> state" where
  "handleCustomerChange (INSERT new) s =
     emit SetCustomers
       (s\<lparr>customers :=
            (let c = customers s; newId = String_js (raw_id_cust new)
             in if list_ex (\<lambda>existing. id_cust existing = newId) c then c
                else c @ [normalize new])\<rparr>)"
| "handleCustomerChange (UPDATE new) s =
     emit SetCustomers
       (s\<lparr>customers :=
            map (\<lambda>item. if id_cust item = String_js (raw_id_cust new) then normalize new else item)
              (customers s)\<rparr>)"
| "handleCustomerChange (DELETE old_id) s =
     emit SetCustomers
       (s\<lparr>customers := filter (\<lambda>item. id_cust item \<noteq> String_js old_id) (customers s)\<rparr>)"

text \<open>\<^verbatim>\<open>handleTaskChange\<close> (App.tsx, lines 192-196).\<close>

fun handleTaskChange :: "raw_task payload \<Rightarrow> state \<Rightarrow> state" where
  "handleTaskChange (INSERT new) s =
     emit SetTasks (s\<lparr>tasks := tasks s @ [normalizeTask new]\<rparr>)"
| "handleTaskChange (UPDATE new) s =
     emit SetTasks
       (s\<lparr>tasks :=
            map (\<lambda>item. if id_task item = String_js (raw_id_task new) then normalizeTask new else item)
              (tasks s)\<rparr>)"
| "handleTaskChange (DELETE old_id) s =
     emit SetTasks
       (s\<lparr>tasks := filter (\<lambda>item. id_task item \<noteq> String_js old_id) (tasks s)\<rparr>)"

text \<open>
  \<^verbatim>\<open>handleColumnChange\<close> (App.tsx, lines 187-191). Column identifiers are compared as
  they are; a delete carries the old column's identifier.
\<close>

datatype column_payload = COL_INSERT column | COL_UPDATE column | COL_DELETE string

fun handleColumnChange :: "column_payload \<Rightarrow> state \<Rightarrow> state" where
  "handleColumnChange (COL_INSERT new) s =
     emit SetColumns (s\<lparr>columns := columns s @ [new]\<rparr>)"
| "handleColumnChange (COL_UPDATE new) s =
     emit SetColumns
       (s\<lparr>columns := map (\<lambda>item. if id_col item = id_col new then new else item) (columns s)\<rparr>)"
| "handleColumnChange (COL_DELETE old_id) s =
     emit SetColumns (s\<lparr>columns := filter (\<lambda>item. id_col item \<noteq> old_id) (columns s)\<rparr>)"

section \<open>Timers\<close>

text \<open>
  The callback of the create handlers (App.tsx, lines 294-297 and 412-415):
  \<^verbatim>\<open>pending.delete(newId); if (returnedId !== newId) pending.delete(returnedId)\<close>.
\<close>

definition release :: "string \<Rightarrow> string \<Rightarrow> string set \<Rightarrow> string set" where
  "release newId returnedId P =
     (let P1 = P - {newId} in if returnedId \<noteq> newId then P1 - {returnedId} else P1)"

fun fire :: "timer \<Rightarrow> state \<Rightarrow> state" where
  "fire t s =
     (case ref t of
        PendingAddsRef \<Rightarrow>
          s\<lparr>pendingAdds := release (timer_newId t) (timer_returnedId t) (pendingAdds s)\<rparr>
      | PendingTaskAddsRef \<Rightarrow>
          s\<lparr>pendingTaskAdds := release (timer_newId t) (timer_returnedId t) (pendingTaskAdds s)\<rparr>)"

text \<open>\<^verbatim>\<open>setTimeout(callback, delay)\<close>: the callback is due \<open>delay\<close> ms from now.\<close>

definition setTimeout :: "pending_ref \<Rightarrow> string \<Rightarrow> string \<Rightarrow> nat \<Rightarrow> state \<Rightarrow> state" where
  "setTimeout r newId returnedId delay s =
     emit (SetTimeout delay)
       (s\<lparr>timers := timers s @
            [\<lparr>due = clock s + delay, ref = r, timer_newId = newId, timer_returnedId = returnedId\<rparr>]\<rparr>)"

text \<open>
  \<open>dt\<close> ms pass with no other event: the clock moves on and every callback that has
  become due runs, in the order the callbacks were scheduled (all delays are equal, so
  that is also the order of their due times).
\<close>

definition advance :: "nat \<Rightarrow> state \<Rightarrow> state" where
  "advance dt s =
     (let t' = clock s + dt;
          ready = filter (\<lambda>t. due t \<le> t') (timers s);
          waiting = filter (\<lambda>t. \<not> due t \<le> t') (timers s)
      in fold fire ready (s\<lparr>clock := t', timers := waiting\<rparr>))"

section \<open>Create handlers\<close>

text \<open>
  What a handler reads from its environment: \<^verbatim>\<open>Date.now()\<close>,
  \<^verbatim>\<open>Math.floor(Math.random() * 1000)\<close> (a number from 0 to 999) and
  \<^verbatim>\<open>new Date().toISOString()\<close>.
\<close>

record env =
  now :: nat
  random :: nat
  iso :: string

text \<open>
  The outcome of \<^verbatim>\<open>insert([payload]).select().single()\<close>: an error (returned or
  thrown) with its message, the created row, or neither.
\<close>

datatype 'r insert_response = InsertError string | InsertData 'r | InsertNothing

text \<open>\<^verbatim>\<open>Omit<Customer, 'id' | 'created_at'>\<close> and \<^verbatim>\<open>Omit<Task, 'id' | 'created_at'>\<close>.\<close>

record customer_draft =
  draft_data :: obj
  draft_rest_cust :: obj

record task_draft =
  draft_customerId :: string
  draft_rest_task :: obj

definition customerId_of :: "env \<Rightarrow> string" where
  "customerId_of e = ''c_'' @ string_of_nat (now e) @ ''_'' @ string_of_nat (random e)"

definition taskId_of :: "env \<Rightarrow> string" where
  "taskId_of e = ''t_'' @ string_of_nat (now e) @ ''_'' @ string_of_nat (random e)"

text \<open>
  \<^verbatim>\<open>columns.forEach(col => { if (initialData[col.id] === undefined) initialData[col.id] = '' })\<close>
  An object is modelled by its own properties: a column identifier that names a property
  inherited from \<^verbatim>\<open>Object.prototype\<close> (such as \<^verbatim>\<open>toString\<close>), for which the
  test is false, is outside the model. Only the content of the optimistic record's
  \<^verbatim>\<open>data\<close> depends on this.
\<close>

definition fillColumns :: "column list \<Rightarrow> obj \<Rightarrow> obj" where
  "fillColumns cols initialData =
     fold (\<lambda>col m. if (case m (id_col col) of None \<Rightarrow> True | Some v \<Rightarrow> v = JUndefined)
                    then m(id_col col \<mapsto> JStr []) else m) cols initialData"

definition newCustomer :: "env \<Rightarrow> column list \<Rightarrow> customer_draft \<Rightarrow> customer" where
  "newCustomer e cols customerData =
     \<lparr>id_cust = customerId_of e,
      data = fillColumns cols (draft_data customerData),
      rest_cust = (draft_rest_cust customerData)(''created_at'' \<mapsto> JStr (iso e))\<rparr>"

definition newTask :: "env \<Rightarrow> task_draft \<Rightarrow> task" where
  "newTask e t =
     \<lparr>id_task = taskId_of e,
      customerId = draft_customerId t,
      rest_task = (draft_rest_task t)(''created_at'' \<mapsto> JStr (iso e))\<rparr>"

text \<open>
  The two alert texts, as UTF-8 bytes: the Japanese for "Registration failed." followed
  by a line break and "Error: ", and the Japanese for "Task registration failed: ".
\<close>

definition customerAlertPrefix :: string where
  "customerAlertPrefix =
     [CHR 0xE7, CHR 0x99, CHR 0xBB, CHR 0xE9, CHR 0x8C, CHR 0xB2, CHR 0xE3, CHR 0x81, CHR 0xAB,
      CHR 0xE5, CHR 0xA4, CHR 0xB1, CHR 0xE6, CHR 0x95, CHR 0x97, CHR 0xE3, CHR 0x81, CHR 0x97,
      CHR 0xE3, CHR 0x81, CHR 0xBE, CHR 0xE3, CHR 0x81, CHR 0x97, CHR 0xE3, CHR 0x81, CHR 0x9F,
      CHR 0xE3, CHR 0x80, CHR 0x82, CHR 0x0A, CHR 0xE3, CHR 0x82, CHR 0xA8, CHR 0xE3, CHR 0x83,
      CHR 0xA9, CHR 0xE3, CHR 0x83, CHR 0xBC, CHR 0x3A, CHR 0x20]"

definition taskAlertPrefix :: string where
  "taskAlertPrefix =
     [CHR 0xE3, CHR 0x82, CHR 0xBF, CHR 0xE3, CHR 0x82, CHR 0xB9, CHR 0xE3, CHR 0x82, CHR 0xAF,
      CHR 0xE7, CHR 0x99, CHR 0xBB, CHR 0xE9, CHR 0x8C, CHR 0xB2, CHR 0xE5, CHR 0xA4, CHR 0xB1,
      CHR 0xE6, CHR 0x95, CHR 0x97, CHR 0x3A, CHR 0x20]"

text \<open>
  The objects that replace the optimistic record when the server answered with another
  identifier: \<^verbatim>\<open>{ ...data, id: returnedId }\<close> for a customer and
  \<^verbatim>\<open>{ ...t, ...data, id: returnedId, customerId: String(data.customerId) }\<close> for a task.
\<close>

definition swapCustomer :: "string \<Rightarrow> raw_customer \<Rightarrow> customer" where
  "swapCustomer returnedId row =
     \<lparr>id_cust = returnedId, data = raw_data row, rest_cust = raw_rest_cust row\<rparr>"

definition swapTask :: "string \<Rightarrow> raw_task \<Rightarrow> task \<Rightarrow> task" where
  "swapTask returnedId row t =
     \<lparr>id_task = returnedId,
      customerId = String_js (raw_customerId row),
      rest_task = rest_task t ++ raw_rest_task row\<rparr>"

text \<open>
  \<^verbatim>\<open>handleAddCustomer\<close> (App.tsx, lines 246-306), in two parts: up to the
  \<^verbatim>\<open>await\<close> of the insert, and from the response on.
\<close>

definition handleAddCustomer_request :: "env \<Rightarrow> customer_draft \<Rightarrow> state \<Rightarrow> state" where
  "handleAddCustomer_request e customerData s =
     (let newId = customerId_of e;
          s1 = s\<lparr>pendingAdds := insert newId (pendingAdds s)\<rparr>;
          s2 = emit SetCustomers
                 (s1\<lparr>customers := customers s1 @ [newCustomer e (columns s1) customerData]\<rparr>)
      in emit (GwInsert Customers) s2)"

fun handleAddCustomer_response :: "string \<Rightarrow> raw_customer insert_response \<Rightarrow> state \<Rightarrow> state" where
  "handleAddCustomer_response newId (InsertData row) s =
     (let returnedId = String_js (raw_id_cust row);
          s1 = (if returnedId \<noteq> newId then
                  (let a = s\<lparr>pendingAdds := insert returnedId (pendingAdds s)\<rparr>;
                       b = emit SetCustomers
                             (a\<lparr>customers :=
                                  map (\<lambda>c. if id_cust c = newId then swapCustomer returnedId row else c)
                                    (customers a)\<rparr>)
                   in b\<lparr>pendingAdds := pendingAdds b - {newId}\<rparr>)
                else s)
      in setTimeout PendingAddsRef newId returnedId 5000 s1)"
| "handleAddCustomer_response newId InsertNothing s = s"
| "handleAddCustomer_response newId (InsertError message) s =
     (let s1 = emit (ConsoleError ''Error adding customer:'') s;
          s2 = emit (Alert (customerAlertPrefix @ message)) s1;
          s3 = emit SetCustomers
                 (s2\<lparr>customers := filter (\<lambda>c. id_cust c \<noteq> newId) (customers s2)\<rparr>)
      in s3\<lparr>pendingAdds := pendingAdds s3 - {newId}\<rparr>)"

definition handleAddCustomer ::
  "env \<Rightarrow> customer_draft \<Rightarrow> raw_customer insert_response \<Rightarrow> state \<Rightarrow> state" where
  "handleAddCustomer e customerData response s =
     handleAddCustomer_response (customerId_of e) response (handleAddCustomer_request e customerData s)"

text \<open>\<^verbatim>\<open>handleAddTask\<close> (App.tsx, lines 382-423), split in the same way.\<close>

definition handleAddTask_request :: "env \<Rightarrow> task_draft \<Rightarrow> state \<Rightarrow> state" where
  "handleAddTask_request e t s =
     (let newId = taskId_of e;
          s1 = s\<lparr>pendingTaskAdds := insert newId (pendingTaskAdds s)\<rparr>;
          s2 = emit SetTasks (s1\<lparr>tasks := tasks s1 @ [newTask e t]\<rparr>)
      in emit (GwInsert Tasks) s2)"

fun handleAddTask_response :: "string \<Rightarrow> raw_task insert_response \<Rightarrow> state \<Rightarrow> state" where
  "handleAddTask_response newId (InsertData row) s =
     (let returnedId = String_js (raw_id_task row);
          s1 = (if returnedId \<noteq> newId then
                  (let a = s\<lparr>pendingTaskAdds := insert returnedId (pendingTaskAdds s)\<rparr>;
                       b = emit SetTasks
                             (a\<lparr>tasks :=
                                  map (\<lambda>t. if id_task t = newId then swapTask returnedId row t else t)
                                    (tasks a)\<rparr>)
                   in b\<lparr>pendingTaskAdds := pendingTaskAdds b - {newId}\<rparr>)
                else s)
      in setTimeout PendingTaskAddsRef newId returnedId 5000 s1)"
| "handleAddTask_response newId InsertNothing s = s"
| "handleAddTask_response newId (InsertError message) s =
     (let s1 = emit (ConsoleError ''Error adding task:'') s;
          s2 = emit (Alert (taskAlertPrefix @ message)) s1;
          s3 = s2\<lparr>pendingTaskAdds := pendingTaskAdds s2 - {newId}\<rparr>
      in emit SetTasks (s3\<lparr>tasks := filter (\<lambda>t. id_task t \<noteq> newId) (tasks s3)\<rparr>))"

definition handleAddTask ::
  "env \<Rightarrow> task_draft \<Rightarrow> raw_task insert_response \<Rightarrow> state \<Rightarrow> state" where
  "handleAddTask e t response s =
     handleAddTask_response (taskId_of e) response (handleAddTask_request e t s)"

section \<open>Update and delete handlers\<close>

text \<open>
  The object built for the targeted customer by \<^verbatim>\<open>handleUpdateCustomer\<close>:
  \<^verbatim>\<open>{ ...c, ...updatedFields, data: updatedFields.data ? { ...c.data, ...updatedFields.data } : c.data }\<close>
\<close>

definition applyCustomerUpdate :: "partial_customer \<Rightarrow> customer \<Rightarrow> customer" where
  "applyCustomerUpdate updatedFields c =
     \<lparr>id_cust = (case upd_id_cust updatedFields of None \<Rightarrow> id_cust c | Some i \<Rightarrow> i),
      data = (case upd_data updatedFields of None \<Rightarrow> data c | Some d \<Rightarrow> data c ++ d),
      rest_cust = rest_cust c ++ upd_rest_cust updatedFields\<rparr>"

text \<open>
  \<^verbatim>\<open>handleUpdateCustomer\<close> (App.tsx, lines 308-335). When the update names
  \<^verbatim>\<open>data\<close>, the handler first reads the customer's current \<^verbatim>\<open>data\<close> back;
  \<open>current\<close> is that row's \<^verbatim>\<open>data\<close>, or \<open>None\<close> when the read failed or found no row.
\<close>

definition handleUpdateCustomer ::
  "string \<Rightarrow> partial_customer \<Rightarrow> obj option \<Rightarrow> state \<Rightarrow> state" where
  "handleUpdateCustomer cid updatedFields current s =
     (let s1 = emit SetCustomers
                 (s\<lparr>customers :=
                      map (\<lambda>c. if id_cust c = cid then applyCustomerUpdate updatedFields c else c)
                        (customers s)\<rparr>)
      in case upd_data updatedFields of
           Some d \<Rightarrow>
             (let s2 = emit (GwSelect Customers cid) s1
              in case current of
                   None \<Rightarrow> s2
                 | Some cur \<Rightarrow> emit (GwUpdate Customers cid) s2)
         | None \<Rightarrow> emit (GwUpdate Customers cid) s1)"

text \<open>\<^verbatim>\<open>handleDeleteCustomer\<close> (App.tsx, lines 337-341).\<close>

definition handleDeleteCustomer :: "string \<Rightarrow> state \<Rightarrow> state" where
  "handleDeleteCustomer cid s =
     (let s1 = emit SetCustomers
                 (s\<lparr>customers := filter (\<lambda>c. id_cust c \<noteq> cid) (customers s)\<rparr>);
          s2 = emit (GwDelete Tasks ''customerId'' cid) s1
      in emit (GwDelete Customers ''id'' cid) s2)"

text \<open>
  The same handler in the in-memory variant of the application
  (src/unnamed/part_001), which has no gateway.
\<close>

definition handleDeleteCustomer_local :: "string \<Rightarrow> state \<Rightarrow> state" where
  "handleDeleteCustomer_local cid s =
     (let s1 = emit SetCustomers
                 (s\<lparr>customers := filter (\<lambda>c. id_cust c \<noteq> cid) (customers s)\<rparr>)
      in emit SetTasks (s1\<lparr>tasks := filter (\<lambda>t. customerId t \<noteq> cid) (tasks s1)\<rparr>))"





text \<open>\<^verbatim>\<open>handleAddColumn\<close> and \<^verbatim>\<open>handleUpdateColumns\<close> (App.tsx, lines 365-376).\<close>

definition handleAddColumn :: "column \<Rightarrow> state \<Rightarrow> state" where
  "handleAddColumn col s =
     emit (GwInsert Columns) (emit SetColumns (s\<lparr>columns := columns s @ [col]\<rparr>))"

definition handleUpdateColumns :: "column list \<Rightarrow> state \<Rightarrow> state" where
  "handleUpdateColumns newColumns s =
     emit (GwUpsert Columns) (emit SetColumns (s\<lparr>columns := newColumns\<rparr>))"

text \<open>The events a handler adds to the trace.\<close>

definition events_of :: "(state \<Rightarrow> state) \<Rightarrow> state \<Rightarrow> event list" where
  "events_of h s = drop (length (trace s)) (trace (h s))"


section \<open>Column drag and drop (CustomerSheet.tsx)\<close>

text \<open>\<^verbatim>\<open>Array.prototype.findIndex\<close>: the first index whose element satisfies \<open>P\<close>, or -1.\<close>

fun findIndex :: "('a \<Rightarrow> bool) \<Rightarrow> 'a list \<Rightarrow> int" where
  "findIndex P [] = - 1"
| "findIndex P (x # xs) =
     (if P x then 0 else (let i = findIndex P xs in if i < 0 then - 1 else i + 1))"

text \<open>
  \<^verbatim>\<open>const [removed] = arr.splice(start, 1)\<close>: a negative start counts from the end,
  a start beyond the end removes nothing (and \<^verbatim>\<open>removed\<close> is undefined).
\<close>

definition splice_remove :: "int \<Rightarrow> 'a list \<Rightarrow> 'a option \<times> 'a list" where
  "splice_remove start xs =
     (let n = int (length xs);
          k = nat (if start < 0 then max (n + start) 0 else min start n)
      in if k < length xs then (Some (xs ! k), take k xs @ drop (Suc k) xs) else (None, xs))"

text \<open>\<^verbatim>\<open>arr.splice(i, 0, x)\<close>: an index beyond the end appends.\<close>

definition splice_insert :: "nat \<Rightarrow> 'a \<Rightarrow> 'a list \<Rightarrow> 'a list" where
  "splice_insert i x xs = take i xs @ [x] @ drop i xs"

text \<open>\<^verbatim>\<open>[...columns].sort((a, b) => a.order - b.order)\<close>: a stable sort by \<^verbatim>\<open>order\<close>.\<close>

definition sortedColumns :: "column list \<Rightarrow> column list" where
  "sortedColumns cols = sort_key order_col cols"

text \<open>
  \<^verbatim>\<open>handleDrop\<close> (CustomerSheet.tsx, lines 513-533): the list handed to
  \<^verbatim>\<open>onUpdateColumns\<close>, or \<open>None\<close> when the handler returns early. An empty string
  is falsy, like null. With no column at all \<^verbatim>\<open>removed\<close> is undefined and the
  final list, a map over the empty \<^verbatim>\<open>columns\<close>, is empty.
\<close>

definition handleDrop :: "column list \<Rightarrow> string option \<Rightarrow> nat \<Rightarrow> column list option" where
  "handleDrop cols draggingColumnId dropIndex =
     (case draggingColumnId of
        None \<Rightarrow> None
      | Some dragged \<Rightarrow>
          if dragged = [] then None
          else
            (let startIndex = findIndex (\<lambda>c. id_col c = dragged) (sortedColumns cols);
                 (removed, remaining) = splice_remove startIndex (sortedColumns cols);
                 newColumnsOrder =
                   (case removed of None \<Rightarrow> remaining
                    | Some col \<Rightarrow> splice_insert dropIndex col remaining)
             in Some (map (\<lambda>col. col\<lparr>order_col := findIndex (\<lambda>c. id_col c = id_col col) newColumnsOrder\<rparr>)
                        cols)))"

section \<open>Example inputs\<close>

text \<open>
  The scenario of the specification: a customer "Yamada" created at time 1000 with random
  suffix 5, for which the server answers with identifier 42; and a task for customer "5".
\<close>

definition env0 :: env where
  "env0 = \<lparr>now = 1000, random = 5, iso = ''2024-01-01T00:00:00.000Z''\<rparr>"

definition yamada_draft :: customer_draft where
  "yamada_draft = \<lparr>draft_data = Map.empty, draft_rest_cust = [''name'' \<mapsto> JStr ''Yamada'']\<rparr>"

definition yamada_row :: raw_customer where
  "yamada_row =
     \<lparr>raw_id_cust = JNum 42, raw_data = Map.empty, raw_rest_cust = [''name'' \<mapsto> JStr ''Yamada'']\<rparr>"

definition task_draft5 :: task_draft where
  "task_draft5 = \<lparr>draft_customerId = ''5'', draft_rest_task = [''title'' \<mapsto> JStr ''Survey'']\<rparr>"

definition task_row :: raw_task where
  "task_row =
     \<lparr>raw_id_task = JNum 42, raw_customerId = JNum 5,
      raw_rest_task = [''title'' \<mapsto> JStr ''Survey'']\<rparr>"

definition empty_state :: state where
  "empty_state =
     \<lparr>customers = [], tasks = [], columns = [], pendingAdds = {}, pendingTaskAdds = {},
      timers = [], clock = 0, trace = [], history = []\<rparr>"

text \<open>A store that already holds a record under the identifier the next create generates.\<close>

definition old_customer :: customer where
  "old_customer = \<lparr>id_cust = ''c_1000_5'', data = Map.empty, rest_cust = [''name'' \<mapsto> JStr ''Sato'']\<rparr>"

definition collision_state :: state where
  "collision_state = empty_state\<lparr>customers := [old_customer]\<rparr>"

text \<open>A store with one customer "5", still pending, and one task of that customer, still pending.\<close>

definition customer5 :: customer where
  "customer5 = \<lparr>id_cust = ''5'', data = [''memo'' \<mapsto> JStr ''old'', ''phone'' \<mapsto> JStr ''090''],
                 rest_cust = [''name'' \<mapsto> JStr ''Suzuki'']\<rparr>"

definition customer6 :: customer where
  "customer6 = \<lparr>id_cust = ''6'', data = [''memo'' \<mapsto> JStr ''other''], rest_cust = Map.empty\<rparr>"

definition task42 :: task where
  "task42 = \<lparr>id_task = ''42'', customerId = ''5'', rest_task = [''title'' \<mapsto> JStr ''Survey'']\<rparr>"

definition store5 :: state where
  "store5 = empty_state\<lparr>customers := [customer5, customer6], tasks := [task42],
                         pendingAdds := {''5''}, pendingTaskAdds := {''42''}\<rparr>"

text \<open>A refresh whose snapshot holds customer 6 only, and no task.\<close>

definition stale_fetch :: fetch_result where
  "stale_fetch =
     \<lparr>customersData = Some [\<lparr>raw_id_cust = JNum 6, raw_data = Map.empty, raw_rest_cust = Map.empty\<rparr>],
      columnsData = None, tasksData = Some []\<rparr>"

text \<open>An update of one key of the nested data of customer "5".\<close>

definition memo_update :: partial_customer where
  "memo_update =
     \<lparr>upd_id_cust = None, upd_data = Some [''memo'' \<mapsto> JStr ''new''], upd_rest_cust = Map.empty\<rparr>"

text \<open>Columns for the drag-and-drop examples.\<close>

definition col_a :: column where
  "col_a = \<lparr>id_col = ''col_1'', title = ''A'', type_col = Text, options = Some [],
            order_col = 0, removable = True\<rparr>"

definition col_b :: column where
  "col_b = \<lparr>id_col = ''col_2'', title = ''B'', type_col = Date, options = None,
            order_col = 1, removable = False\<rparr>"

definition col_c :: column where
  "col_c = \<lparr>id_col = ''col_3'', title = ''C'', type_col = Select, options = Some [''x''],
            order_col = 2, removable = True\<rparr>"

text \<open>
  A store with two settled customers and one settled task, nothing pending; and a refresh
  whose snapshot holds these two customers and the row the server created for "Yamada".
\<close>

definition task7 :: task where
  "task7 = \<lparr>id_task = ''7'', customerId = ''6'', rest_task = [''title'' \<mapsto> JStr ''Contract'']\<rparr>"

definition store56 :: state where
  "store56 = empty_state\<lparr>customers := [customer5, customer6], tasks := [task7]\<rparr>"

definition fetch_with_yamada :: fetch_result where
  "fetch_with_yamada =
     \<lparr>customersData =
        Some [\<lparr>raw_id_cust = JNum 5, raw_data = data customer5, raw_rest_cust = rest_cust customer5\<rparr>,
              \<lparr>raw_id_cust = JNum 6, raw_data = data customer6, raw_rest_cust = rest_cust customer6\<rparr>,
              yamada_row],
      columnsData = None,
      tasksData = Some [\<lparr>raw_id_task = JNum 7, raw_customerId = JNum 6,
                         raw_rest_task = rest_task task7\<rparr>]\<rparr>"

text \<open>
  The columns of the store after column A has been added through the handler and the
  change feed has delivered the insert of that same column.
\<close>

definition duplicate_columns :: "column list" where
  "duplicate_columns =
     columns (handleColumnChange (COL_INSERT col_a) (handleAddColumn col_a empty_state))"

section \<open>Properties of the refresh merge\<close>

lemma clearFetched_eq: "clearFetched ids P = P - set ids"
  unfolding clearFetched_def
  by (induction ids arbitrary: P) auto

lemma list_ex_id_iff: "list_ex (\<lambda>f. g f = x) fs \<longleftrightarrow> x \<in> set (map g fs)"
  by (auto simp: list_ex_iff)

lemma mergeCustomers_eq:
  "mergeCustomers d P prev =
     (let fetched = map normalize (case d of None \<Rightarrow> [] | Some rows \<Rightarrow> rows);
          ids = set (map id_cust fetched)
      in (P - ids, fetched @ filter (\<lambda>c. id_cust c \<in> P - ids \<and> id_cust c \<notin> ids) prev))"
  by (simp add: mergeCustomers_def Let_def clearFetched_eq list_ex_id_iff)

lemma mergeTasks_eq:
  "mergeTasks d P prev =
     (let fetched = map normalizeTask (case d of None \<Rightarrow> [] | Some rows \<Rightarrow> rows);
          ids = set (map id_task fetched)
      in (P - ids, fetched @ filter (\<lambda>t. id_task t \<in> P - ids \<and> id_task t \<notin> ids) prev))"
  by (simp add: mergeTasks_def Let_def clearFetched_eq list_ex_id_iff)

lemma fetchAllData_customers:
  "customers (fetchAllData r s) =
     fetchedCustomers r @
     filter (\<lambda>c. id_cust c \<in> pendingAdds s - fetchedCustomerIds r \<and> id_cust c \<notin> fetchedCustomerIds r)
       (customers s)"
  by (simp add: fetchAllData_def emit_def mergeCustomers_eq mergeTasks_eq Let_def
      fetchedCustomers_def fetchedCustomerIds_def image_image split: prod.splits)

lemma fetchAllData_pendingAdds:
  "pendingAdds (fetchAllData r s) = pendingAdds s - fetchedCustomerIds r"
  by (simp add: fetchAllData_def emit_def mergeCustomers_eq mergeTasks_eq Let_def
      fetchedCustomers_def fetchedCustomerIds_def image_image split: prod.splits)

lemma fetchAllData_tasks:
  "tasks (fetchAllData r s) =
     fetchedTasks r @
     filter (\<lambda>t. id_task t \<in> pendingTaskAdds s - fetchedTaskIds r \<and> id_task t \<notin> fetchedTaskIds r)
       (tasks s)"
  by (simp add: fetchAllData_def emit_def mergeCustomers_eq mergeTasks_eq Let_def
      fetchedTasks_def fetchedTaskIds_def image_image split: prod.splits)

lemma fetchAllData_pendingTaskAdds:
  "pendingTaskAdds (fetchAllData r s) = pendingTaskAdds s - fetchedTaskIds r"
  by (simp add: fetchAllData_def emit_def mergeCustomers_eq mergeTasks_eq Let_def
      fetchedTasks_def fetchedTaskIds_def image_image split: prod.splits)

lemma string_of_nat_1000: "string_of_nat 1000 = ''1000''"
  by code_simp

lemma string_of_nat_digits:
  "string_of_nat 5 = ''5''" "string_of_nat 6 = ''6''" "string_of_nat 42 = ''42''"
  by code_simp+

lemma customerId_of_env0: "customerId_of env0 = ''c_1000_5''"
  by (simp add: customerId_of_def env0_def string_of_nat_1000 string_of_nat_digits)

lemma taskId_of_env0: "taskId_of env0 = ''t_1000_5''"
  by (simp add: taskId_of_def env0_def string_of_nat_1000 string_of_nat_digits)

text \<open>
  C1. A full refresh first removes from the pending set every identifier that occurs in
  the normalised snapshot; the new collection is the snapshot followed by exactly those
  previous records whose identifier is still pending and does not occur in the snapshot.
  So a previous record that is pending and absent from the snapshot is kept as it is.
  This holds for customers and for tasks.
\<close>

theorem refresh_merge_keeps_pending:
  "pendingAdds (fetchAllData r s) = pendingAdds s - fetchedCustomerIds r \<and>
   customers (fetchAllData r s) =
     fetchedCustomers r @
     filter (\<lambda>c. id_cust c \<in> pendingAdds (fetchAllData r s) \<and> id_cust c \<notin> fetchedCustomerIds r)
       (customers s) \<and>
   pendingTaskAdds (fetchAllData r s) = pendingTaskAdds s - fetchedTaskIds r \<and>
   tasks (fetchAllData r s) =
     fetchedTasks r @
     filter (\<lambda>t. id_task t \<in> pendingTaskAdds (fetchAllData r s) \<and> id_task t \<notin> fetchedTaskIds r)
       (tasks s) \<and>
   (\<forall>c \<in> set (customers s).
      id_cust c \<in> pendingAdds s \<and> id_cust c \<notin> fetchedCustomerIds r \<longrightarrow>
      c \<in> set (customers (fetchAllData r s))) \<and>
   (\<forall>t \<in> set (tasks s).
      id_task t \<in> pendingTaskAdds s \<and> id_task t \<notin> fetchedTaskIds r \<longrightarrow>
      t \<in> set (tasks (fetchAllData r s)))"
  by (simp add: fetchAllData_customers fetchAllData_pendingAdds fetchAllData_tasks
      fetchAllData_pendingTaskAdds)

theorem refresh_merge_keeps_pending_witness:
  "customer5 \<in> set (customers store5) \<and> id_cust customer5 \<in> pendingAdds store5 \<and>
   id_cust customer5 \<notin> fetchedCustomerIds stale_fetch \<and>
   customer5 \<in> set (customers (fetchAllData stale_fetch store5)) \<and>
   task42 \<in> set (tasks store5) \<and> id_task task42 \<in> pendingTaskAdds store5 \<and>
   id_task task42 \<notin> fetchedTaskIds stale_fetch \<and>
   task42 \<in> set (tasks (fetchAllData stale_fetch store5))"
proof -
  have c: "customer5 \<in> set (customers store5)"
    and cp: "id_cust customer5 \<in> pendingAdds store5"
    and t: "task42 \<in> set (tasks store5)"
    and tp: "id_task task42 \<in> pendingTaskAdds store5"
    by (simp_all add: store5_def empty_state_def customer5_def task42_def)
  have cf: "id_cust customer5 \<notin> fetchedCustomerIds stale_fetch"
    by (simp add: fetchedCustomerIds_def fetchedCustomers_def stale_fetch_def normalize_def
        customer5_def string_of_nat_digits)
  have tf: "id_task task42 \<notin> fetchedTaskIds stale_fetch"
    by (simp add: fetchedTaskIds_def fetchedTasks_def stale_fetch_def)
  from refresh_merge_keeps_pending [of stale_fetch store5] c cp cf t tp tf
  show ?thesis by blast
qed

section \<open>Properties of the create handlers\<close>

lemma id_cust_newCustomer: "id_cust (newCustomer e cols d) = customerId_of e"
  by (simp add: newCustomer_def)

lemma id_task_newTask: "id_task (newTask e t) = taskId_of e"
  by (simp add: newTask_def)

lemma filter_id_fresh: "x \<notin> f ` set xs \<Longrightarrow> filter (\<lambda>c. f c \<noteq> x) xs = xs"
  by (induction xs) auto

lemma filter_id_absent: "x \<notin> f ` set xs \<Longrightarrow> filter (\<lambda>c. f c = x) xs = []"
  by (induction xs) auto

lemma map_id_fresh: "x \<notin> f ` set xs \<Longrightarrow> map (\<lambda>c. if f c = x then g c else c) xs = xs"
  by (induction xs) auto

lemma handleAddCustomer_request_customers:
  "customers (handleAddCustomer_request e d s) = customers s @ [newCustomer e (columns s) d]"
  by (simp add: handleAddCustomer_request_def emit_def Let_def)

lemma handleAddTask_request_tasks:
  "tasks (handleAddTask_request e t s) = tasks s @ [newTask e t]"
  by (simp add: handleAddTask_request_def emit_def Let_def)

lemma handleAddCustomer_InsertData_customers:
  "String_js (raw_id_cust row) \<noteq> customerId_of e \<Longrightarrow>
   customers (handleAddCustomer e d (InsertData row) s) =
     map (\<lambda>c. if id_cust c = customerId_of e
               then swapCustomer (String_js (raw_id_cust row)) row else c)
       (customers s @ [newCustomer e (columns s) d])"
  by (simp add: handleAddCustomer_def handleAddCustomer_request_def emit_def Let_def
      setTimeout_def)

lemma handleAddCustomer_InsertData_pending:
  "String_js (raw_id_cust row) \<noteq> customerId_of e \<Longrightarrow>
   pendingAdds (handleAddCustomer e d (InsertData row) s) =
     insert (String_js (raw_id_cust row)) (pendingAdds s - {customerId_of e})"
  by (auto simp add: handleAddCustomer_def handleAddCustomer_request_def emit_def Let_def
      setTimeout_def)

lemma handleAddTask_InsertData_tasks:
  "String_js (raw_id_task row) \<noteq> taskId_of e \<Longrightarrow>
   tasks (handleAddTask e t (InsertData row) s) =
     map (\<lambda>x. if id_task x = taskId_of e then swapTask (String_js (raw_id_task row)) row x else x)
       (tasks s @ [newTask e t])"
  by (simp add: handleAddTask_def handleAddTask_request_def emit_def Let_def setTimeout_def)

lemma handleAddTask_InsertData_pending:
  "String_js (raw_id_task row) \<noteq> taskId_of e \<Longrightarrow>
   pendingTaskAdds (handleAddTask e t (InsertData row) s) =
     insert (String_js (raw_id_task row)) (pendingTaskAdds s - {taskId_of e})"
  by (auto simp add: handleAddTask_def handleAddTask_request_def emit_def Let_def
      setTimeout_def)

text \<open>
  C2, as the code has it. When the remote insert of a create fails, the rollback filters
  the store by the local identifier: afterwards the store is the pre-create collection
  without the records that carried that identifier, so it holds no record under it and it
  equals the pre-create collection whenever the identifier was not already in use. The
  local identifier is not pending any more. The handler has made one store update, one
  insert request (no second one), one console error, one alert whose text ends with the
  error message, and the rollback update. This holds for customers and for tasks.
\<close>

theorem create_failure_rolls_back:
  "customers (handleAddCustomer e d (InsertError msg) s) =
     filter (\<lambda>c. id_cust c \<noteq> customerId_of e) (customers s) \<and>
   (customerId_of e \<notin> id_cust ` set (customers s) \<longrightarrow>
      customers (handleAddCustomer e d (InsertError msg) s) = customers s) \<and>
   customerId_of e \<notin> pendingAdds (handleAddCustomer e d (InsertError msg) s) \<and>
   events_of (handleAddCustomer e d (InsertError msg)) s =
     [SetCustomers, GwInsert Customers, ConsoleError ''Error adding customer:'',
      Alert (customerAlertPrefix @ msg), SetCustomers] \<and>
   tasks (handleAddTask e t (InsertError msg) s) =
     filter (\<lambda>x. id_task x \<noteq> taskId_of e) (tasks s) \<and>
   (taskId_of e \<notin> id_task ` set (tasks s) \<longrightarrow>
      tasks (handleAddTask e t (InsertError msg) s) = tasks s) \<and>
   taskId_of e \<notin> pendingTaskAdds (handleAddTask e t (InsertError msg) s) \<and>
   events_of (handleAddTask e t (InsertError msg)) s =
     [SetTasks, GwInsert Tasks, ConsoleError ''Error adding task:'',
      Alert (taskAlertPrefix @ msg), SetTasks]"
  by (simp add: handleAddCustomer_def handleAddCustomer_request_def handleAddTask_def
      handleAddTask_request_def emit_def Let_def events_of_def id_cust_newCustomer
      id_task_newTask filter_id_fresh)

theorem create_failure_rolls_back_witness:
  "customerId_of env0 \<notin> id_cust ` set (customers store5) \<and>
   customers (handleAddCustomer env0 yamada_draft (InsertError ''network error'') store5) =
     customers store5 \<and>
   taskId_of env0 \<notin> id_task ` set (tasks store5) \<and>
   tasks (handleAddTask env0 task_draft5 (InsertError ''network error'') store5) = tasks store5"
proof -
  have c: "customerId_of env0 \<notin> id_cust ` set (customers store5)"
    by (simp add: customerId_of_env0 store5_def empty_state_def customer5_def customer6_def)
  have t: "taskId_of env0 \<notin> id_task ` set (tasks store5)"
    by (simp add: taskId_of_env0 store5_def empty_state_def task42_def)
  from create_failure_rolls_back [of env0 yamada_draft "''network error''" store5 task_draft5] c t
  show ?thesis by blast
qed

text \<open>
  C2 as stated says that the store equals the pre-create collection after every failed
  create. In a store that already holds a record under the identifier the create
  generates, the rollback removes that record as well.
\<close>

theorem create_failure_collision_counterexample:
  "customers (handleAddCustomer env0 yamada_draft (InsertError ''network error'') collision_state)
     \<noteq> customers collision_state"
  by (simp add: handleAddCustomer_def handleAddCustomer_request_def emit_def Let_def
      id_cust_newCustomer customerId_of_env0 collision_state_def empty_state_def old_customer_def)

text \<open>
  What the create handlers do when nothing is delivered between the request and the
  answer. When the insert succeeds with an identifier (normalised to a
  string) that differs from the local one, and neither identifier was already in use in
  the store, the store afterwards is the pre-create collection followed by one record in
  the slot the optimistic record had: for a customer the server's row under the new
  identifier, for a task the optimistic task overwritten with every field the server
  returned, under the new identifier and with the server's customer identifier
  normalised. It is the only record under the new identifier and no record is left under
  the local one; the new identifier is pending and the local one is not.
\<close>

lemma create_success_swaps_identifier:
  "(String_js (raw_id_cust row) \<noteq> customerId_of e \<and>
    customerId_of e \<notin> id_cust ` set (customers s) \<and>
    String_js (raw_id_cust row) \<notin> id_cust ` set (customers s) \<longrightarrow>
      customers (handleAddCustomer_request e d s) = customers s @ [newCustomer e (columns s) d] \<and>
      customers (handleAddCustomer e d (InsertData row) s) =
        customers s @ [swapCustomer (String_js (raw_id_cust row)) row] \<and>
      filter (\<lambda>c. id_cust c = String_js (raw_id_cust row))
        (customers (handleAddCustomer e d (InsertData row) s)) =
        [swapCustomer (String_js (raw_id_cust row)) row] \<and>
      filter (\<lambda>c. id_cust c = customerId_of e)
        (customers (handleAddCustomer e d (InsertData row) s)) = [] \<and>
      data (swapCustomer (String_js (raw_id_cust row)) row) = raw_data row \<and>
      rest_cust (swapCustomer (String_js (raw_id_cust row)) row) = raw_rest_cust row \<and>
      String_js (raw_id_cust row) \<in> pendingAdds (handleAddCustomer e d (InsertData row) s) \<and>
      customerId_of e \<notin> pendingAdds (handleAddCustomer e d (InsertData row) s)) \<and>
   (String_js (raw_id_task trow) \<noteq> taskId_of e \<and>
    taskId_of e \<notin> id_task ` set (tasks s) \<and>
    String_js (raw_id_task trow) \<notin> id_task ` set (tasks s) \<longrightarrow>
      tasks (handleAddTask_request e t s) = tasks s @ [newTask e t] \<and>
      tasks (handleAddTask e t (InsertData trow) s) =
        tasks s @ [swapTask (String_js (raw_id_task trow)) trow (newTask e t)] \<and>
      filter (\<lambda>x. id_task x = String_js (raw_id_task trow))
        (tasks (handleAddTask e t (InsertData trow) s)) =
        [swapTask (String_js (raw_id_task trow)) trow (newTask e t)] \<and>
      filter (\<lambda>x. id_task x = taskId_of e)
        (tasks (handleAddTask e t (InsertData trow) s)) = [] \<and>
      customerId (swapTask (String_js (raw_id_task trow)) trow (newTask e t)) =
        String_js (raw_customerId trow) \<and>
      (\<forall>k v. raw_rest_task trow k = Some v \<longrightarrow>
         rest_task (swapTask (String_js (raw_id_task trow)) trow (newTask e t)) k = Some v) \<and>
      String_js (raw_id_task trow) \<in> pendingTaskAdds (handleAddTask e t (InsertData trow) s) \<and>
      taskId_of e \<notin> pendingTaskAdds (handleAddTask e t (InsertData trow) s))"
proof (intro conjI impI)
  assume "String_js (raw_id_cust row) \<noteq> customerId_of e \<and>
    customerId_of e \<notin> id_cust ` set (customers s) \<and>
    String_js (raw_id_cust row) \<notin> id_cust ` set (customers s)"
  then have diff: "String_js (raw_id_cust row) \<noteq> customerId_of e"
    and fresh: "customerId_of e \<notin> id_cust ` set (customers s)"
    and fresh': "String_js (raw_id_cust row) \<notin> id_cust ` set (customers s)"
    by simp_all
  show "customers (handleAddCustomer_request e d s) = customers s @ [newCustomer e (columns s) d]"
    by (rule handleAddCustomer_request_customers)
  show after: "customers (handleAddCustomer e d (InsertData row) s) =
      customers s @ [swapCustomer (String_js (raw_id_cust row)) row]"
    using diff fresh
    by (simp add: handleAddCustomer_InsertData_customers map_id_fresh id_cust_newCustomer)
  show "filter (\<lambda>c. id_cust c = String_js (raw_id_cust row))
        (customers (handleAddCustomer e d (InsertData row) s)) =
        [swapCustomer (String_js (raw_id_cust row)) row]"
    using fresh' by (simp add: after filter_id_absent swapCustomer_def)
  show "filter (\<lambda>c. id_cust c = customerId_of e)
        (customers (handleAddCustomer e d (InsertData row) s)) = []"
    using fresh diff by (simp add: after filter_id_absent swapCustomer_def)
  show "data (swapCustomer (String_js (raw_id_cust row)) row) = raw_data row"
    and "rest_cust (swapCustomer (String_js (raw_id_cust row)) row) = raw_rest_cust row"
    by (simp_all add: swapCustomer_def)
  show "String_js (raw_id_cust row) \<in> pendingAdds (handleAddCustomer e d (InsertData row) s)"
    using diff by (simp add: handleAddCustomer_InsertData_pending)
  show "customerId_of e \<notin> pendingAdds (handleAddCustomer e d (InsertData row) s)"
    using diff by (simp add: handleAddCustomer_InsertData_pending)
next
  assume "String_js (raw_id_task trow) \<noteq> taskId_of e \<and>
    taskId_of e \<notin> id_task ` set (tasks s) \<and>
    String_js (raw_id_task trow) \<notin> id_task ` set (tasks s)"
  then have diff: "String_js (raw_id_task trow) \<noteq> taskId_of e"
    and fresh: "taskId_of e \<notin> id_task ` set (tasks s)"
    and fresh': "String_js (raw_id_task trow) \<notin> id_task ` set (tasks s)"
    by simp_all
  show "tasks (handleAddTask_request e t s) = tasks s @ [newTask e t]"
    by (rule handleAddTask_request_tasks)
  show after: "tasks (handleAddTask e t (InsertData trow) s) =
      tasks s @ [swapTask (String_js (raw_id_task trow)) trow (newTask e t)]"
    using diff fresh
    by (simp add: handleAddTask_InsertData_tasks map_id_fresh id_task_newTask)
  show "filter (\<lambda>x. id_task x = String_js (raw_id_task trow))
        (tasks (handleAddTask e t (InsertData trow) s)) =
        [swapTask (String_js (raw_id_task trow)) trow (newTask e t)]"
    using fresh' by (simp add: after filter_id_absent swapTask_def)
  show "filter (\<lambda>x. id_task x = taskId_of e)
        (tasks (handleAddTask e t (InsertData trow) s)) = []"
    using fresh diff by (simp add: after filter_id_absent swapTask_def)
  show "customerId (swapTask (String_js (raw_id_task trow)) trow (newTask e t)) =
        String_js (raw_customerId trow)"
    by (simp add: swapTask_def)
  show "\<forall>k v. raw_rest_task trow k = Some v \<longrightarrow>
         rest_task (swapTask (String_js (raw_id_task trow)) trow (newTask e t)) k = Some v"
    by (simp add: swapTask_def)
  show "String_js (raw_id_task trow) \<in> pendingTaskAdds (handleAddTask e t (InsertData trow) s)"
    using diff by (simp add: handleAddTask_InsertData_pending)
  show "taskId_of e \<notin> pendingTaskAdds (handleAddTask e t (InsertData trow) s)"
    using diff by (simp add: handleAddTask_InsertData_pending)
qed

text \<open>
  In a store that already holds a record under the local identifier, the swap replaces
  that record too, and two records carry the new identifier.
\<close>

lemma create_success_collision:
  "map id_cust
     (customers (handleAddCustomer env0 yamada_draft (InsertData yamada_row) collision_state)) =
     [''42'', ''42'']"
  by (simp add: handleAddCustomer_InsertData_customers customerId_of_env0 yamada_row_def
      string_of_nat_digits collision_state_def empty_state_def old_customer_def
      id_cust_newCustomer swapCustomer_def)

section \<open>Properties of the change-feed handlers\<close>

lemma customer_insert_dedup:
  "customers (handleCustomerChange (INSERT row) s) =
     (if String_js (raw_id_cust row) \<in> id_cust ` set (customers s) then customers s
      else customers s @ [normalize row])"
  by (simp add: emit_def Let_def list_ex_id_iff)

text \<open>
  C4. The customer handler ignores an insert event whose identifier is already in the
  store (\<open>customer_insert_dedup\<close>). The task handler has no such check: it appends the
  record whatever the store holds. In a store holding task "42", the insert event for
  task 42 leaves two records under that identifier.
\<close>

theorem task_insert_event_duplicates:
  "tasks (handleTaskChange (INSERT row) s) = tasks s @ [normalizeTask row] \<and>
   map id_task (tasks store5) = [''42''] \<and>
   map id_task (tasks (handleTaskChange (INSERT task_row) store5)) = [''42'', ''42'']"
  by (simp add: emit_def store5_def empty_state_def task42_def normalizeTask_def task_row_def
      string_of_nat_digits)

text \<open>
  The refresh merge is idempotent: a second refresh with the same snapshot changes neither
  the collections nor the pending sets.
\<close>

lemma refresh_idempotent:
  "customers (fetchAllData r (fetchAllData r s)) = customers (fetchAllData r s) \<and>
   pendingAdds (fetchAllData r (fetchAllData r s)) = pendingAdds (fetchAllData r s) \<and>
   tasks (fetchAllData r (fetchAllData r s)) = tasks (fetchAllData r s) \<and>
   pendingTaskAdds (fetchAllData r (fetchAllData r s)) = pendingTaskAdds (fetchAllData r s)"
proof -
  have c: "filter (\<lambda>c. id_cust c \<in> P \<and> id_cust c \<notin> fetchedCustomerIds r) (fetchedCustomers r) = []"
    for P
    by (auto simp: fetchedCustomerIds_def filter_empty_conv)
  have t: "filter (\<lambda>t. id_task t \<in> P \<and> id_task t \<notin> fetchedTaskIds r) (fetchedTasks r) = []"
    for P
    by (auto simp: fetchedTaskIds_def filter_empty_conv)
  show ?thesis
    by (auto simp: fetchAllData_customers fetchAllData_pendingAdds fetchAllData_tasks
        fetchAllData_pendingTaskAdds c t intro: filter_cong)
qed

text \<open>So is every customer event, and the update and delete events of tasks.\<close>

lemma customer_change_idempotent:
  "customers (handleCustomerChange ev (handleCustomerChange ev s)) =
   customers (handleCustomerChange ev s)"
proof (cases ev)
  case (INSERT row)
  then show ?thesis
    by (auto simp: emit_def Let_def list_ex_iff normalize_def)
next
  case (UPDATE row)
  then show ?thesis
    by (auto simp: emit_def normalize_def)
next
  case (DELETE i)
  then show ?thesis
    by (simp add: emit_def)
qed

lemma task_update_delete_idempotent:
  "tasks (handleTaskChange (UPDATE row) (handleTaskChange (UPDATE row) s)) =
     tasks (handleTaskChange (UPDATE row) s) \<and>
   tasks (handleTaskChange (DELETE i) (handleTaskChange (DELETE i) s)) =
     tasks (handleTaskChange (DELETE i) s)"
  by (auto simp: emit_def normalizeTask_def)

text \<open>
  C7. The insert event of a task is not idempotent: applied twice, it leaves one record
  more than applied once, in every store and for every row.
\<close>

theorem task_insert_event_not_idempotent:
  "tasks (handleTaskChange (INSERT row) (handleTaskChange (INSERT row) s)) \<noteq>
     tasks (handleTaskChange (INSERT row) s) \<and>
   length (tasks (handleTaskChange (INSERT row) (handleTaskChange (INSERT row) s))) =
     Suc (length (tasks (handleTaskChange (INSERT row) s)))"
  by (simp add: emit_def)

section \<open>Creates with deliveries before the answer\<close>

text \<open>
  The answer of a successful insert, on whatever the store holds when it arrives: every
  record under the local identifier is replaced in place, every other record is kept.
\<close>

lemma handleAddCustomer_response_customers:
  "String_js (raw_id_cust row) \<noteq> newId \<Longrightarrow>
   customers (handleAddCustomer_response newId (InsertData row) s) =
     map (\<lambda>c. if id_cust c = newId then swapCustomer (String_js (raw_id_cust row)) row else c)
       (customers s)"
  by (simp add: emit_def Let_def setTimeout_def)

lemma handleAddTask_response_tasks:
  "String_js (raw_id_task row) \<noteq> newId \<Longrightarrow>
   tasks (handleAddTask_response newId (InsertData row) s) =
     map (\<lambda>x. if id_task x = newId then swapTask (String_js (raw_id_task row)) row x else x)
       (tasks s)"
  by (simp add: emit_def Let_def setTimeout_def)

text \<open>
  The change feed delivers the insert of the created row while the handler still waits
  for the answer: the customer handler finds no record under the server's identifier
  (the optimistic record is under the local one) and appends the row; the answer then
  renames the optimistic record. Both records end under the server's identifier, in
  every store in which neither identifier was in use.
\<close>

lemma echo_before_answer_customers:
  assumes "String_js (raw_id_cust row) \<noteq> customerId_of e"
    and "customerId_of e \<notin> id_cust ` set (customers s)"
    and "String_js (raw_id_cust row) \<notin> id_cust ` set (customers s)"
  shows "customers
           (handleAddCustomer_response (customerId_of e) (InsertData row)
              (handleCustomerChange (INSERT row) (handleAddCustomer_request e d s))) =
         customers s @ [swapCustomer (String_js (raw_id_cust row)) row, normalize row]"
proof -
  have req: "customers (handleAddCustomer_request e d s) = customers s @ [newCustomer e (columns s) d]"
    by (rule handleAddCustomer_request_customers)
  have absent: "String_js (raw_id_cust row) \<notin>
      id_cust ` set (customers (handleAddCustomer_request e d s))"
    using assms(1,3) by (simp add: req id_cust_newCustomer)
  have echo: "customers (handleCustomerChange (INSERT row) (handleAddCustomer_request e d s)) =
      customers s @ [newCustomer e (columns s) d, normalize row]"
    using absent by (simp add: customer_insert_dedup req del: handleCustomerChange.simps)
  have idn: "id_cust (normalize row) = String_js (raw_id_cust row)"
    by (simp add: normalize_def)
  show ?thesis
    using assms(1,2)
    by (simp add: handleAddCustomer_response_customers echo map_id_fresh id_cust_newCustomer idn
        del: handleAddCustomer_response.simps handleCustomerChange.simps)
qed

lemma handleAddCustomer_response_ids:
  "String_js (raw_id_cust row) \<noteq> newId \<Longrightarrow>
   map id_cust (customers (handleAddCustomer_response newId (InsertData row) s)) =
     map (\<lambda>i. if i = newId then String_js (raw_id_cust row) else i) (map id_cust (customers s))"
  by (simp add: handleAddCustomer_response_customers swapCustomer_def comp_def if_distrib
      del: handleAddCustomer_response.simps cong: if_cong)

lemma handleAddTask_response_ids:
  "String_js (raw_id_task row) \<noteq> newId \<Longrightarrow>
   map id_task (tasks (handleAddTask_response newId (InsertData row) s)) =
     map (\<lambda>i. if i = newId then String_js (raw_id_task row) else i) (map id_task (tasks s))"
  by (simp add: handleAddTask_response_tasks swapTask_def comp_def if_distrib
      del: handleAddTask_response.simps cong: if_cong)

text \<open>
  C3. The claim asks for exactly one record under the server's identifier after every
  successful create whose identifier differs. The handler waits for the answer of the
  insert, and what is delivered in between acts on the store first. In a store with
  customers "5" and "6" and task "7", where neither the local nor the server's
  identifier is in use: when the change feed delivers the insert of the created customer
  before the answer arrives, or a refresh whose snapshot already holds the created row
  runs before the answer arrives, two customer records end under "42"; and a created
  task ends twice under "42" when its insert event is delivered before the answer.
\<close>

theorem create_interleaved_duplicates:
  "map id_cust (customers store56) = [''5'', ''6''] \<and>
   customerId_of env0 = ''c_1000_5'' \<and> String_js (raw_id_cust yamada_row) = ''42'' \<and>
   map id_cust (customers (handleAddCustomer_request env0 yamada_draft store56)) =
     [''5'', ''6'', ''c_1000_5''] \<and>
   map id_cust
     (customers
        (handleCustomerChange (INSERT yamada_row)
           (handleAddCustomer_request env0 yamada_draft store56))) =
     [''5'', ''6'', ''c_1000_5'', ''42''] \<and>
   map id_cust
     (customers
        (handleAddCustomer_response (customerId_of env0) (InsertData yamada_row)
           (handleCustomerChange (INSERT yamada_row)
              (handleAddCustomer_request env0 yamada_draft store56)))) =
     [''5'', ''6'', ''42'', ''42''] \<and>
   map id_cust
     (customers
        (fetchAllData fetch_with_yamada
           (handleAddCustomer_request env0 yamada_draft store56))) =
     [''5'', ''6'', ''42'', ''c_1000_5''] \<and>
   map id_cust
     (customers
        (handleAddCustomer_response (customerId_of env0) (InsertData yamada_row)
           (fetchAllData fetch_with_yamada
              (handleAddCustomer_request env0 yamada_draft store56)))) =
     [''5'', ''6'', ''42'', ''42''] \<and>
   map id_task (tasks store56) = [''7''] \<and>
   taskId_of env0 = ''t_1000_5'' \<and> String_js (raw_id_task task_row) = ''42'' \<and>
   map id_task
     (tasks
        (handleTaskChange (INSERT task_row)
           (handleAddTask_request env0 task_draft5 store56))) =
     [''7'', ''t_1000_5'', ''42''] \<and>
   map id_task
     (tasks
        (handleAddTask_response (taskId_of env0) (InsertData task_row)
           (handleTaskChange (INSERT task_row)
              (handleAddTask_request env0 task_draft5 store56)))) =
     [''7'', ''42'', ''42'']"
proof -
  have r: "String_js (raw_id_cust yamada_row) = ''42''"
    and rt: "String_js (raw_id_task task_row) = ''42''"
    by (simp_all add: yamada_row_def task_row_def string_of_nat_digits)
  have diff: "String_js (raw_id_cust yamada_row) \<noteq> customerId_of env0"
    and tdiff: "String_js (raw_id_task task_row) \<noteq> taskId_of env0"
    by (simp_all add: r rt customerId_of_env0 taskId_of_env0)
  have before: "map id_cust (customers store56) = [''5'', ''6'']"
    "map id_task (tasks store56) = [''7'']"
    by (simp_all add: store56_def empty_state_def customer5_def customer6_def task7_def)
  have req: "map id_cust (customers (handleAddCustomer_request env0 yamada_draft store56)) =
      [''5'', ''6'', ''c_1000_5'']"
    by (simp add: handleAddCustomer_request_customers before id_cust_newCustomer
        customerId_of_env0)
  have echo: "map id_cust
     (customers
        (handleCustomerChange (INSERT yamada_row)
           (handleAddCustomer_request env0 yamada_draft store56))) =
     [''5'', ''6'', ''c_1000_5'', ''42'']"
  proof -
    have "id_cust ` set (customers (handleAddCustomer_request env0 yamada_draft store56)) =
        set [''5'', ''6'', ''c_1000_5'']"
      using arg_cong [OF req, of set] by simp
    then have "''42'' \<notin> id_cust ` set (customers (handleAddCustomer_request env0 yamada_draft store56))"
      by simp
    then show ?thesis
      by (simp add: customer_insert_dedup r req normalize_def del: handleCustomerChange.simps)
  qed
  have fetched: "map id_cust (fetchedCustomers fetch_with_yamada) = [''5'', ''6'', ''42'']"
    by (simp add: fetchedCustomers_def fetch_with_yamada_def normalize_def yamada_row_def
        string_of_nat_digits)
  have refresh: "map id_cust
     (customers
        (fetchAllData fetch_with_yamada
           (handleAddCustomer_request env0 yamada_draft store56))) =
     [''5'', ''6'', ''42'', ''c_1000_5'']"
  proof -
    have p: "pendingAdds (handleAddCustomer_request env0 yamada_draft store56) = {''c_1000_5''}"
      by (simp add: handleAddCustomer_request_def emit_def Let_def customerId_of_env0 store56_def
          empty_state_def)
    have ids: "fetchedCustomerIds fetch_with_yamada = {''5'', ''6'', ''42''}"
      using fetched by (simp add: fetchedCustomerIds_def)
    have cs: "customers (handleAddCustomer_request env0 yamada_draft store56) =
        [customer5, customer6, newCustomer env0 (columns store56) yamada_draft]"
      by (simp add: handleAddCustomer_request_customers store56_def empty_state_def)
    show ?thesis
      by (simp add: fetchAllData_customers p ids fetched cs customer5_def customer6_def
          id_cust_newCustomer customerId_of_env0)
  qed
  have techo: "map id_task
     (tasks
        (handleTaskChange (INSERT task_row)
           (handleAddTask_request env0 task_draft5 store56))) =
     [''7'', ''t_1000_5'', ''42'']"
    by (simp add: handleAddTask_request_def emit_def Let_def rt taskId_of_env0 id_task_newTask
        normalizeTask_def store56_def empty_state_def task7_def)
  have a1: "map id_cust
     (customers
        (handleAddCustomer_response (customerId_of env0) (InsertData yamada_row)
           (handleCustomerChange (INSERT yamada_row)
              (handleAddCustomer_request env0 yamada_draft store56)))) =
     [''5'', ''6'', ''42'', ''42'']"
    by (simp only: handleAddCustomer_response_ids [OF diff] echo)
      (simp add: r customerId_of_env0)
  have a2: "map id_cust
     (customers
        (handleAddCustomer_response (customerId_of env0) (InsertData yamada_row)
           (fetchAllData fetch_with_yamada
              (handleAddCustomer_request env0 yamada_draft store56)))) =
     [''5'', ''6'', ''42'', ''42'']"
    by (simp only: handleAddCustomer_response_ids [OF diff] refresh)
      (simp add: r customerId_of_env0)
  have a3: "map id_task
     (tasks
        (handleAddTask_response (taskId_of env0) (InsertData task_row)
           (handleTaskChange (INSERT task_row)
              (handleAddTask_request env0 task_draft5 store56)))) =
     [''7'', ''42'', ''42'']"
    by (simp only: handleAddTask_response_ids [OF tdiff] techo)
      (simp add: rt taskId_of_env0)
  from before req echo refresh techo a1 a2 a3 r rt customerId_of_env0 taskId_of_env0
  show ?thesis
    by (simp only: simp_thms)
qed

section \<open>Properties of the update and delete handlers\<close>

text \<open>
  C5. Deleting a customer filters the customer out of the store and issues the remote
  delete of the dependent tasks, then the remote delete of the customer; it does not touch
  the in-memory task collection. In the store with customer "5" and its task "42", the
  task is still there afterwards, while the in-memory variant of the same handler
  removes it.
\<close>

theorem delete_customer_keeps_local_tasks:
  "customers (handleDeleteCustomer cid s) = filter (\<lambda>c. id_cust c \<noteq> cid) (customers s) \<and>
   tasks (handleDeleteCustomer cid s) = tasks s \<and>
   events_of (handleDeleteCustomer cid) s =
     [SetCustomers, GwDelete Tasks ''customerId'' cid, GwDelete Customers ''id'' cid] \<and>
   customerId task42 = ''5'' \<and>
   tasks (handleDeleteCustomer ''5'' store5) = [task42] \<and>
   tasks (handleDeleteCustomer_local ''5'' store5) = []"
  by (simp add: handleDeleteCustomer_def handleDeleteCustomer_local_def emit_def Let_def
      events_of_def store5_def empty_state_def task42_def)



text \<open>
  C10. An optimistic customer update that names \<^verbatim>\<open>data\<close> keeps the collection's
  length and order; in every record with the targeted identifier, each key of the update's
  data map takes the update's value and each other key keeps its value; every record with
  another identifier is unchanged.
\<close>

theorem update_customer_merges_data:
  assumes "upd_data u = Some d"
  shows "length (customers (handleUpdateCustomer cid u cur s)) = length (customers s) \<and>
   (\<forall>i < length (customers s).
      (id_cust (customers s ! i) = cid \<longrightarrow>
         (\<forall>k. k \<in> dom d \<longrightarrow> data (customers (handleUpdateCustomer cid u cur s) ! i) k = d k) \<and>
         (\<forall>k. k \<notin> dom d \<longrightarrow>
            data (customers (handleUpdateCustomer cid u cur s) ! i) k = data (customers s ! i) k)) \<and>
      (id_cust (customers s ! i) \<noteq> cid \<longrightarrow>
         customers (handleUpdateCustomer cid u cur s) ! i = customers s ! i))"
  using assms
  by (auto simp: handleUpdateCustomer_def emit_def Let_def applyCustomerUpdate_def map_add_def
      split: option.splits)

theorem update_customer_merges_data_witness:
  "upd_data memo_update = Some [''memo'' \<mapsto> JStr ''new''] \<and>
   customers store5 = [customer5, customer6] \<and>
   data customer5 ''memo'' = Some (JStr ''old'') \<and>
   data (customers (handleUpdateCustomer ''5'' memo_update None store5) ! 0) ''memo'' =
     Some (JStr ''new'') \<and>
   data (customers (handleUpdateCustomer ''5'' memo_update None store5) ! 0) ''phone'' =
     Some (JStr ''090'') \<and>
   customers (handleUpdateCustomer ''5'' memo_update None store5) ! 1 = customer6"
proof -
  have u: "upd_data memo_update = Some [''memo'' \<mapsto> JStr ''new'']"
    by (simp add: memo_update_def)
  have cs: "customers store5 = [customer5, customer6]"
    by (simp add: store5_def empty_state_def)
  have ids: "id_cust customer5 = ''5''" "id_cust customer6 \<noteq> ''5''"
    by (simp_all add: customer5_def customer6_def)
  have old: "data customer5 ''memo'' = Some (JStr ''old'')"
    "data customer5 ''phone'' = Some (JStr ''090'')"
    by (simp_all add: customer5_def)
  note m = update_customer_merges_data [OF u, of "''5''" None store5, THEN conjunct2, rule_format]
  have a: "data (customers (handleUpdateCustomer ''5'' memo_update None store5) ! 0) ''memo'' =
      Some (JStr ''new'')"
    using m [of 0, THEN conjunct1, rule_format, THEN conjunct1, rule_format, of "''memo''"]
    by (simp add: cs ids)
  have b: "data (customers (handleUpdateCustomer ''5'' memo_update None store5) ! 0) ''phone'' =
      Some (JStr ''090'')"
    using m [of 0, THEN conjunct1, rule_format, THEN conjunct2, rule_format, of "''phone''"]
    by (simp add: cs ids old)
  have c: "customers (handleUpdateCustomer ''5'' memo_update None store5) ! 1 = customer6"
    using m [of 1, THEN conjunct2, rule_format]
    by (simp add: cs ids)
  from u cs old a b c show ?thesis by simp
qed

section \<open>Properties of the release timer\<close>

lemma release_eq: "release n r P = P - {n, r}"
  by (auto simp: release_def Let_def)

lemma fold_fire_pendingAdds:
  "pendingAdds (fold fire ts s) =
     pendingAdds s -
     {i. \<exists>t \<in> set ts. ref t = PendingAddsRef \<and> (i = timer_newId t \<or> i = timer_returnedId t)}"
  by (induction ts arbitrary: s) (auto simp: release_eq split: pending_ref.splits)

lemma fold_fire_pendingTaskAdds:
  "pendingTaskAdds (fold fire ts s) =
     pendingTaskAdds s -
     {i. \<exists>t \<in> set ts. ref t = PendingTaskAddsRef \<and> (i = timer_newId t \<or> i = timer_returnedId t)}"
  by (induction ts arbitrary: s) (auto simp: release_eq split: pending_ref.splits)

lemma advance_pendingAdds:
  "pendingAdds (advance dt s) =
     pendingAdds s -
     {i. \<exists>t \<in> set (timers s). due t \<le> clock s + dt \<and> ref t = PendingAddsRef \<and>
           (i = timer_newId t \<or> i = timer_returnedId t)}"
  by (auto simp: advance_def Let_def fold_fire_pendingAdds)

lemma advance_pendingTaskAdds:
  "pendingTaskAdds (advance dt s) =
     pendingTaskAdds s -
     {i. \<exists>t \<in> set (timers s). due t \<le> clock s + dt \<and> ref t = PendingTaskAddsRef \<and>
           (i = timer_newId t \<or> i = timer_returnedId t)}"
  by (auto simp: advance_def Let_def fold_fire_pendingTaskAdds)

lemma handleAddCustomer_InsertData_timers:
  "timers (handleAddCustomer e d (InsertData row) s) =
     timers s @ [\<lparr>due = clock s + 5000, ref = PendingAddsRef, timer_newId = customerId_of e,
                  timer_returnedId = String_js (raw_id_cust row)\<rparr>] \<and>
   clock (handleAddCustomer e d (InsertData row) s) = clock s"
  by (simp add: handleAddCustomer_def handleAddCustomer_request_def emit_def Let_def
      setTimeout_def)

lemma handleAddTask_InsertData_timers:
  "timers (handleAddTask e t (InsertData row) s) =
     timers s @ [\<lparr>due = clock s + 5000, ref = PendingTaskAddsRef, timer_newId = taskId_of e,
                  timer_returnedId = String_js (raw_id_task row)\<rparr>] \<and>
   clock (handleAddTask e t (InsertData row) s) = clock s"
  by (simp add: handleAddTask_def handleAddTask_request_def emit_def Let_def setTimeout_def)

lemma handleAddCustomer_InsertData_pendingAdds:
  "pendingAdds (handleAddCustomer e d (InsertData row) s) =
     (if String_js (raw_id_cust row) \<noteq> customerId_of e
      then insert (String_js (raw_id_cust row)) (pendingAdds s - {customerId_of e})
      else insert (customerId_of e) (pendingAdds s))"
  by (auto simp add: handleAddCustomer_def handleAddCustomer_request_def emit_def Let_def
      setTimeout_def)

lemma handleAddTask_InsertData_pendingTaskAdds:
  "pendingTaskAdds (handleAddTask e t (InsertData row) s) =
     (if String_js (raw_id_task row) \<noteq> taskId_of e
      then insert (String_js (raw_id_task row)) (pendingTaskAdds s - {taskId_of e})
      else insert (taskId_of e) (pendingTaskAdds s))"
  by (auto simp add: handleAddTask_def handleAddTask_request_def emit_def Let_def
      setTimeout_def)

lemma customer_release:
  fixes e d row s
  defines "N \<equiv> customerId_of e" and "R \<equiv> String_js (raw_id_cust row)"
    and "s' \<equiv> handleAddCustomer e d (InsertData row) s"
  shows "R \<in> pendingAdds s'"
    and "R \<noteq> N \<longrightarrow> N \<notin> pendingAdds s'"
    and "(\<forall>t \<in> set (timers s).
            ref t = PendingAddsRef \<longrightarrow> R \<noteq> timer_newId t \<and> R \<noteq> timer_returnedId t) \<longrightarrow>
         (\<forall>dt < 5000. R \<in> pendingAdds (advance dt s'))"
    and "\<forall>dt \<ge> 5000. N \<notin> pendingAdds (advance dt s') \<and> R \<notin> pendingAdds (advance dt s')"
  unfolding N_def R_def s'_def
  by (auto simp: advance_pendingAdds handleAddCustomer_InsertData_timers
      handleAddCustomer_InsertData_pendingAdds)

lemma task_release:
  fixes e t row s
  defines "N \<equiv> taskId_of e" and "R \<equiv> String_js (raw_id_task row)"
    and "s' \<equiv> handleAddTask e t (InsertData row) s"
  shows "R \<in> pendingTaskAdds s'"
    and "R \<noteq> N \<longrightarrow> N \<notin> pendingTaskAdds s'"
    and "(\<forall>x \<in> set (timers s).
            ref x = PendingTaskAddsRef \<longrightarrow> R \<noteq> timer_newId x \<and> R \<noteq> timer_returnedId x) \<longrightarrow>
         (\<forall>dt < 5000. R \<in> pendingTaskAdds (advance dt s'))"
    and "\<forall>dt \<ge> 5000. N \<notin> pendingTaskAdds (advance dt s') \<and> R \<notin> pendingTaskAdds (advance dt s')"
  unfolding N_def R_def s'_def
  by (auto simp: advance_pendingTaskAdds handleAddTask_InsertData_timers
      handleAddTask_InsertData_pendingTaskAdds)

text \<open>
  C6, as the code has it. A create whose insert returns a row schedules one callback,
  due 5000 ms later, that deletes the local identifier and, when it differs, the
  server's from the pending set, whatever the set then holds. The identifier the record
  is stored under (the server's; it is the local one when the two are equal) is pending
  when the handler ends, and stays pending for every elapsed time below 5000 ms during
  which no other event happens, provided no callback scheduled earlier names it; from
  5000 ms on neither identifier is pending. A local identifier that differs from the
  server's has left the pending set already when the handler ends: the swap deletes it.
  This holds for customers and for tasks.
\<close>

theorem create_success_release:
  "(let N = customerId_of e; R = String_js (raw_id_cust row);
        s' = handleAddCustomer e d (InsertData row) s
    in timers s' =
         timers s @ [\<lparr>due = clock s + 5000, ref = PendingAddsRef, timer_newId = N,
                      timer_returnedId = R\<rparr>] \<and>
       (\<forall>P. N \<notin> release N R P \<and> R \<notin> release N R P) \<and>
       R \<in> pendingAdds s' \<and>
       (R \<noteq> N \<longrightarrow> N \<notin> pendingAdds s') \<and>
       ((\<forall>x \<in> set (timers s).
           ref x = PendingAddsRef \<longrightarrow> R \<noteq> timer_newId x \<and> R \<noteq> timer_returnedId x) \<longrightarrow>
        (\<forall>dt < 5000. R \<in> pendingAdds (advance dt s'))) \<and>
       (\<forall>dt \<ge> 5000. N \<notin> pendingAdds (advance dt s') \<and> R \<notin> pendingAdds (advance dt s'))) \<and>
   (let N = taskId_of e; R = String_js (raw_id_task trow);
        s' = handleAddTask e t (InsertData trow) s
    in timers s' =
         timers s @ [\<lparr>due = clock s + 5000, ref = PendingTaskAddsRef, timer_newId = N,
                      timer_returnedId = R\<rparr>] \<and>
       (\<forall>P. N \<notin> release N R P \<and> R \<notin> release N R P) \<and>
       R \<in> pendingTaskAdds s' \<and>
       (R \<noteq> N \<longrightarrow> N \<notin> pendingTaskAdds s') \<and>
       ((\<forall>x \<in> set (timers s).
           ref x = PendingTaskAddsRef \<longrightarrow> R \<noteq> timer_newId x \<and> R \<noteq> timer_returnedId x) \<longrightarrow>
        (\<forall>dt < 5000. R \<in> pendingTaskAdds (advance dt s'))) \<and>
       (\<forall>dt \<ge> 5000. N \<notin> pendingTaskAdds (advance dt s') \<and> R \<notin> pendingTaskAdds (advance dt s')))"
  unfolding Let_def
  using customer_release [where e = e and d = d and row = row and s = s]
    task_release [where e = e and t = t and row = trow and s = s]
  by (simp add: handleAddCustomer_InsertData_timers handleAddTask_InsertData_timers release_eq)

theorem create_success_release_witness:
  "timers empty_state = [] \<and>
   String_js (raw_id_cust yamada_row) = ''42'' \<and> customerId_of env0 = ''c_1000_5'' \<and>
   ''42'' \<in> pendingAdds
      (advance 4999 (handleAddCustomer env0 yamada_draft (InsertData yamada_row) empty_state)) \<and>
   ''42'' \<notin> pendingAdds
      (advance 5000 (handleAddCustomer env0 yamada_draft (InsertData yamada_row) empty_state)) \<and>
   ''c_1000_5'' \<notin> pendingAdds
      (advance 5000 (handleAddCustomer env0 yamada_draft (InsertData yamada_row) empty_state)) \<and>
   String_js (raw_id_task task_row) = ''42'' \<and> taskId_of env0 = ''t_1000_5'' \<and>
   ''42'' \<in> pendingTaskAdds
      (advance 4999 (handleAddTask env0 task_draft5 (InsertData task_row) empty_state)) \<and>
   ''42'' \<notin> pendingTaskAdds
      (advance 5000 (handleAddTask env0 task_draft5 (InsertData task_row) empty_state))"
proof -
  have r: "String_js (raw_id_cust yamada_row) = ''42''"
    and rt: "String_js (raw_id_task task_row) = ''42''"
    by (simp_all add: yamada_row_def task_row_def string_of_nat_digits)
  have e: "timers empty_state = []"
    by (simp add: empty_state_def)
  have lt: "(4999::nat) < 5000" and ge: "(5000::nat) \<ge> 5000"
    by simp_all
  from create_success_release
         [of env0 yamada_row yamada_draft empty_state task_row task_draft5, unfolded Let_def]
       r rt e lt ge customerId_of_env0 taskId_of_env0
  show ?thesis by (simp del: One_nat_def)
qed

text \<open>
  C6 as stated has every identifier of the create, the local one included, leave the
  pending set exactly when the 5000 ms have passed. In the scenario of the
  specification the local identifier is pending once the request is issued and is not
  pending 4999 ms after the successful answer.
\<close>

theorem create_success_release_counterexample:
  "customerId_of env0 \<in> pendingAdds (handleAddCustomer_request env0 yamada_draft empty_state) \<and>
   customerId_of env0 \<notin> pendingAdds
      (advance 4999 (handleAddCustomer env0 yamada_draft (InsertData yamada_row) empty_state))"
  by (simp add: handleAddCustomer_request_def emit_def Let_def advance_pendingAdds
      handleAddCustomer_InsertData_pendingAdds customerId_of_env0 yamada_row_def
      string_of_nat_digits)

section \<open>Properties of the column drop\<close>

lemma findIndex_none: "\<forall>x \<in> set xs. \<not> P x \<Longrightarrow> findIndex P xs = - 1"
  by (induction xs) (auto simp: Let_def)

lemma findIndex_found:
  "\<exists>x \<in> set xs. P x \<Longrightarrow>
   0 \<le> findIndex P xs \<and> nat (findIndex P xs) < length xs \<and> P (xs ! nat (findIndex P xs))"
proof (induction xs)
  case Nil
  then show ?case by simp
next
  case (Cons x xs)
  show ?case
  proof (cases "P x")
    case True
    then show ?thesis by simp
  next
    case False
    with Cons.prems have "\<exists>y \<in> set xs. P y" by simp
    from Cons.IH [OF this] False show ?thesis
      by (simp add: Let_def nat_add_distrib)
  qed
qed

lemma findIndex_distinct_nth:
  "distinct (map f xs) \<Longrightarrow> j < length xs \<Longrightarrow> findIndex (\<lambda>c. f c = f (xs ! j)) xs = int j"
proof (induction xs arbitrary: j)
  case Nil
  then show ?case by simp
next
  case (Cons x xs)
  show ?case
  proof (cases j)
    case 0
    then show ?thesis by simp
  next
    case (Suc k)
    with Cons.prems have k: "k < length xs" and d: "distinct (map f xs)"
      and nx: "f x \<notin> f ` set xs"
      by simp_all
    from k nx have "f x \<noteq> f (xs ! k)"
      by (metis imageI nth_mem)
    with Cons.IH [OF d k] Suc show ?thesis
      by (simp add: Let_def)
  qed
qed

lemma mset_splice_insert: "mset (splice_insert k x ys) = add_mset x (mset ys)"
proof -
  have "mset ys = mset (take k ys) + mset (drop k ys)"
    by (simp flip: mset_append)
  then show ?thesis
    by (simp add: splice_insert_def)
qed

lemma splice_remove_nth:
  "i < length xs \<Longrightarrow> splice_remove (int i) xs = (Some (xs ! i), take i xs @ drop (Suc i) xs)"
  by (simp add: splice_remove_def Let_def)

lemma mset_remove_nth: "i < length xs \<Longrightarrow> add_mset (xs ! i) (mset (take i xs @ drop (Suc i) xs)) = mset xs"
proof -
  assume "i < length xs"
  then have "xs = take i xs @ xs ! i # drop (Suc i) xs"
    by (rule id_take_nth_drop)
  then have "mset xs = mset (take i xs @ xs ! i # drop (Suc i) xs)"
    by simp
  then show ?thesis
    by simp
qed

lemma splice_insert_nth: "k \<le> length ys \<Longrightarrow> splice_insert k x ys ! k = x"
  by (simp add: splice_insert_def nth_append)

text \<open>The list \<^verbatim>\<open>newColumnsOrder\<close> of a drop, for a dragged column that is there.\<close>

lemma handleDrop_found:
  assumes "dragged \<noteq> []" and "dragged \<in> id_col ` set cols"
  shows "\<exists>S i newOrder.
           S = sortedColumns cols \<and> i < length cols \<and> id_col (S ! i) = dragged \<and>
           newOrder = splice_insert dropIndex (S ! i) (take i S @ drop (Suc i) S) \<and>
           mset newOrder = mset cols \<and>
           handleDrop cols (Some dragged) dropIndex =
             Some (map (\<lambda>col. col\<lparr>order_col := findIndex (\<lambda>c. id_col c = id_col col) newOrder\<rparr>)
                     cols)"
proof -
  define S where "S = sortedColumns cols"
  define i where "i = nat (findIndex (\<lambda>c. id_col c = dragged) S)"
  define newOrder where "newOrder = splice_insert dropIndex (S ! i) (take i S @ drop (Suc i) S)"
  have ex: "\<exists>x \<in> set S. id_col x = dragged"
    using assms(2) by (auto simp: S_def sortedColumns_def)
  from findIndex_found [OF ex]
  have pos: "0 \<le> findIndex (\<lambda>c. id_col c = dragged) S" and lt: "i < length S"
    and at: "id_col (S ! i) = dragged"
    by (simp_all add: i_def)
  from pos have idx: "findIndex (\<lambda>c. id_col c = dragged) S = int i"
    by (simp add: i_def)
  have run: "handleDrop cols (Some dragged) dropIndex =
           Some (map (\<lambda>col. col\<lparr>order_col := findIndex (\<lambda>c. id_col c = id_col col) newOrder\<rparr>) cols)"
    using assms(1) lt
    by (simp add: handleDrop_def Let_def idx splice_remove_nth newOrder_def flip: S_def)
  have "mset newOrder = add_mset (S ! i) (mset (take i S @ drop (Suc i) S))"
    by (simp only: newOrder_def mset_splice_insert)
  also have "\<dots> = mset S"
    by (rule mset_remove_nth [OF lt])
  also have "\<dots> = mset cols"
    by (simp add: S_def sortedColumns_def)
  finally have perm: "mset newOrder = mset cols" .
  have "i < length cols"
    using lt by (simp add: S_def sortedColumns_def)
  with run perm at S_def newOrder_def show ?thesis
    by blast
qed

lemma findIndex_orders:
  fixes cols newOrder :: "column list"
  assumes d: "distinct (map id_col cols)" and m: "mset newOrder = mset cols"
  defines "g \<equiv> \<lambda>col. findIndex (\<lambda>c. id_col c = id_col col) newOrder"
  shows "distinct (map g cols)" and "set (map g cols) = int ` {0..<length cols}"
proof -
  have dn: "distinct (map id_col newOrder)"
    using d m by (metis mset_eq_imp_distinct_iff mset_map)
  have sn: "set newOrder = set cols"
    using m by (rule mset_eq_setD)
  have ln: "length newOrder = length cols"
    using m by (rule mset_eq_length)
  have inv: "newOrder ! nat (g col) = col \<and> 0 \<le> g col \<and> nat (g col) < length newOrder"
    if "col \<in> set cols" for col
  proof -
    from that sn have "\<exists>x \<in> set newOrder. id_col x = id_col col"
      by auto
    from findIndex_found [OF this]
    have p: "0 \<le> g col" and l: "nat (g col) < length newOrder"
      and e: "id_col (newOrder ! nat (g col)) = id_col col"
      by (simp_all add: g_def)
    from l have "newOrder ! nat (g col) \<in> set cols"
      using sn nth_mem by blast
    with e that d have "newOrder ! nat (g col) = col"
      by (meson distinct_map inj_onD)
    with p l show ?thesis by simp
  qed
  have "inj_on g (set cols)"
  proof (rule inj_onI)
    fix a b
    assume "a \<in> set cols" "b \<in> set cols" "g a = g b"
    with inv [of a] inv [of b] show "a = b" by metis
  qed
  moreover from d have "distinct cols"
    by (simp add: distinct_map)
  ultimately show "distinct (map g cols)"
    by (simp add: distinct_map)
  show "set (map g cols) = int ` {0..<length cols}"
  proof (intro equalityI subsetI)
    fix x
    assume "x \<in> set (map g cols)"
    then obtain col where c: "col \<in> set cols" and x: "x = g col"
      by auto
    from inv [OF c] have "x = int (nat (g col))" "nat (g col) < length cols"
      using x ln by simp_all
    then show "x \<in> int ` {0..<length cols}"
      by (intro image_eqI [where x = "nat (g col)"]) simp_all
  next
    fix x
    assume "x \<in> int ` {0..<length cols}"
    then obtain j where j: "j < length cols" and x: "x = int j"
      by auto
    from j ln have jn: "j < length newOrder" by simp
    then have mem: "newOrder ! j \<in> set cols"
      using sn nth_mem by blast
    have "g (newOrder ! j) = int j"
      unfolding g_def by (rule findIndex_distinct_nth [OF dn jn])
    with mem x show "x \<in> set (map g cols)"
      by force
  qed
qed

text \<open>
  C9, as the code has it. When the column identifiers are pairwise distinct, the dragged
  identifier is not empty and belongs to a column, and the drop index is within bounds,
  the list handed to the update handler has the same columns in the same places (same
  identifiers, titles, types, options and removable flags); their order fields are
  pairwise distinct and are exactly the numbers 0 to n-1; and the dragged column's order
  is the drop index.
\<close>

theorem drop_reorders_columns:
  assumes "distinct (map id_col cols)" and "dragged \<noteq> []" and "dragged \<in> id_col ` set cols"
    and "dropIndex < length cols"
  shows "\<exists>final. handleDrop cols (Some dragged) dropIndex = Some final \<and>
     map (\<lambda>c. (id_col c, title c, type_col c, options c, removable c)) final =
       map (\<lambda>c. (id_col c, title c, type_col c, options c, removable c)) cols \<and>
     distinct (map order_col final) \<and>
     set (map order_col final) = int ` {0..<length cols} \<and>
     (\<forall>c \<in> set final. id_col c = dragged \<longrightarrow> order_col c = int dropIndex)"
proof -
  from handleDrop_found [OF assms(2,3), of dropIndex]
  obtain S i newOrder where S: "S = sortedColumns cols" and i: "i < length cols"
    and dragged: "id_col (S ! i) = dragged"
    and newOrder: "newOrder = splice_insert dropIndex (S ! i) (take i S @ drop (Suc i) S)"
    and m: "mset newOrder = mset cols"
    and found: "handleDrop cols (Some dragged) dropIndex =
             Some (map (\<lambda>col. col\<lparr>order_col := findIndex (\<lambda>c. id_col c = id_col col) newOrder\<rparr>)
                     cols)"
    by blast
  define g where "g = (\<lambda>col :: column. findIndex (\<lambda>c. id_col c = id_col col) newOrder)"
  define final where "final = map (\<lambda>col. col\<lparr>order_col := g col\<rparr>) cols"
  have run: "handleDrop cols (Some dragged) dropIndex = Some final"
    using found by (simp add: final_def g_def)
  have same: "map (\<lambda>c. (id_col c, title c, type_col c, options c, removable c)) final =
       map (\<lambda>c. (id_col c, title c, type_col c, options c, removable c)) cols"
    by (simp add: final_def)
  have orders: "map order_col final = map g cols"
    by (simp add: final_def comp_def)
  note perm = findIndex_orders [OF assms(1) m, folded g_def]
  have dn: "distinct (map id_col newOrder)"
    using assms(1) m by (metis mset_eq_imp_distinct_iff mset_map)
  have len: "length (take i S @ drop (Suc i) S) = length cols - 1"
    using i by (simp add: S sortedColumns_def)
  with assms(4) have k: "dropIndex \<le> length (take i S @ drop (Suc i) S)"
    by simp
  then have at: "newOrder ! dropIndex = S ! i"
    by (simp add: newOrder splice_insert_nth)
  have kn: "dropIndex < length newOrder"
    using assms(4) m by (metis mset_eq_length)
  have "findIndex (\<lambda>c. id_col c = id_col (newOrder ! dropIndex)) newOrder = int dropIndex"
    by (rule findIndex_distinct_nth [OF dn kn])
  then have drag: "findIndex (\<lambda>c. id_col c = dragged) newOrder = int dropIndex"
    by (simp add: at dragged)
  have dropped: "\<forall>c \<in> set final. id_col c = dragged \<longrightarrow> order_col c = int dropIndex"
    using drag by (auto simp: final_def g_def)
  have dist: "distinct (map order_col final)"
    using perm(1) by (simp only: orders)
  have range: "set (map order_col final) = int ` {0..<length cols}"
    using perm(2) by (simp only: orders)
  from run same dist range dropped show ?thesis
    by blast
qed

theorem drop_reorders_columns_witness:
  "distinct (map id_col [col_a, col_b, col_c]) \<and> ''col_1'' \<noteq> [] \<and>
   ''col_1'' \<in> id_col ` set [col_a, col_b, col_c] \<and> (2::nat) < length [col_a, col_b, col_c] \<and>
   map_option (map order_col) (handleDrop [col_a, col_b, col_c] (Some ''col_1'') 2) = Some [2, 0, 1] \<and>
   (\<exists>final. handleDrop [col_a, col_b, col_c] (Some ''col_1'') 2 = Some final \<and>
      distinct (map order_col final) \<and>
      set (map order_col final) = int ` {0..<length [col_a, col_b, col_c]})"
proof -
  have d: "distinct (map id_col [col_a, col_b, col_c])"
    by (simp add: col_a_def col_b_def col_c_def)
  have n: "''col_1'' \<noteq> []"
    by simp
  have m: "''col_1'' \<in> id_col ` set [col_a, col_b, col_c]"
    by (simp add: col_a_def)
  have k: "(2::nat) < length [col_a, col_b, col_c]"
    by simp
  have run: "map_option (map order_col) (handleDrop [col_a, col_b, col_c] (Some ''col_1'') 2) =
      Some [2, 0, 1]"
    by (simp add: handleDrop_def sortedColumns_def splice_remove_def splice_insert_def Let_def
        col_a_def col_b_def col_c_def)
  from drop_reorders_columns [OF d n m k] d n m k run show ?thesis
    by blast
qed

text \<open>
  C9 as stated asks for nothing about the identifiers. Once a column has been added and
  the change feed has echoed its insert, the store holds the column twice; dropping it at
  position 1 then gives both copies the order 0, which is neither a permutation of 0 and 1
  nor the position of the drop.
\<close>

theorem drop_duplicate_columns_counterexample:
  "duplicate_columns = [col_a, col_a] \<and>
   map_option (map order_col) (handleDrop duplicate_columns (Some ''col_1'') 1) = Some [0, 0]"
proof -
  have dup: "duplicate_columns = [col_a, col_a]"
    by (simp add: duplicate_columns_def handleAddColumn_def emit_def empty_state_def)
  have "map_option (map order_col) (handleDrop [col_a, col_a] (Some ''col_1'') 1) = Some [0, 0]"
    by (simp add: handleDrop_def sortedColumns_def splice_remove_def splice_insert_def Let_def
        col_a_def)
  with dup show ?thesis
    by simp
qed

end
